theory Spec2Isabelle
  imports Complex_Main
begin

section \<open>Sensors (VSM.cpp, lines 10-37)\<close>

text \<open>
  The abstract class \<open>Sensor\<close> has two concrete subclasses and no data members; a sensor
  object is therefore determined by its dynamic type. The manager holds owning pointers
  to sensor objects; an entry is modelled by the object it owns.
\<close>

datatype Sensor = TemperatureSensor | PressureSensor

text \<open>
  Each \<open>readValue\<close> body declares a function-local \<open>static\<close> engine: one engine object per
  variant for the whole process, shared by all objects of that variant. The state of the
  two engines is the only mutable state of the sensor layer.
\<close>

record 'g engines =
  temp_gen :: 'g
  pres_gen :: 'g

text \<open>
  \<open>std::default_random_engine\<close> and \<open>std::uniform_real_distribution<double>\<close> belong to
  the C++ standard library, not to the program. The call \<open>dist(gen)\<close> of a distribution
  constructed as \<open>dist(a, b)\<close> is a parameter \<open>draw a b\<close>: it maps the engine state to the
  number produced and the engine state left behind. Values of type \<open>double\<close> are
  represented by real numbers.
\<close>

type_synonym 'g dist = "real \<Rightarrow> real \<Rightarrow> 'g \<Rightarrow> real \<times> 'g"

fun readValue :: "'g dist \<Rightarrow> Sensor \<Rightarrow> 'g engines \<Rightarrow> real \<times> 'g engines" where
  "readValue draw TemperatureSensor st =
     (let (v, g') = draw 20 30 (temp_gen st) in (v, st\<lparr>temp_gen := g'\<rparr>))"
| "readValue draw PressureSensor st =
     (let (v, g') = draw (9 / 10) (11 / 10) (pres_gen st) in (v, st\<lparr>pres_gen := g'\<rparr>))"

fun getType :: "Sensor \<Rightarrow> string" where
  "getType TemperatureSensor = ''Temperature''"
| "getType PressureSensor = ''Pressure''"

section \<open>SensorManager (VSM.cpp, lines 39-60)\<close>

record SensorManager =
  sensors :: "Sensor list"

definition SensorManager_new :: SensorManager where
  "SensorManager_new = \<lparr>sensors = []\<rparr>"

definition addSensor :: "SensorManager \<Rightarrow> Sensor \<Rightarrow> SensorManager" where
  "addSensor m sensor = m\<lparr>sensors := sensors m @ [sensor]\<rparr>"

text \<open>
  The range-for loop of \<open>readAll\<close>: \<open>values\<close> is the vector built so far, \<open>st\<close> the engine
  state; each iteration calls \<open>readValue\<close> and pushes the result at the back.
\<close>

fun readAll_loop ::
  "'g dist \<Rightarrow> Sensor list \<Rightarrow> real list \<Rightarrow> 'g engines \<Rightarrow> real list \<times> 'g engines" where
  "readAll_loop draw [] values st = (values, st)"
| "readAll_loop draw (s # rest) values st =
     (let (v, st') = readValue draw s st in readAll_loop draw rest (values @ [v]) st')"

definition readAll :: "'g dist \<Rightarrow> SensorManager \<Rightarrow> 'g engines \<Rightarrow> real list \<times> 'g engines" where
  "readAll draw m st = readAll_loop draw (sensors m) [] st"

fun getSensorTypes_loop :: "Sensor list \<Rightarrow> string list \<Rightarrow> string list" where
  "getSensorTypes_loop [] types = types"
| "getSensorTypes_loop (s # rest) types = getSensorTypes_loop rest (types @ [getType s])"

definition getSensorTypes :: "SensorManager \<Rightarrow> string list" where
  "getSensorTypes m = getSensorTypes_loop (sensors m) []"

section \<open>Driver (VSM.cpp, lines 62-111)\<close>

text \<open>
  \<open>getTimestamp\<close> reads the system clock, converts it with \<open>localtime\<close> and formats the
  result with \<open>strftime\<close> and the format \<open>%H:%M:%S\<close>. The clock is an input of the program:
  \<open>clock k\<close> is the broken-down local time seen by the \<open>k\<close>-th call of \<open>getTimestamp\<close> in a
  run (calls counted from 0), with the three fields of \<open>std::tm\<close> that the format reads.
  Each of the three conversions prints its field, a number below 100, as two decimal
  digits.
\<close>

record tm =
  tm_hour :: nat
  tm_min :: nat
  tm_sec :: nat

definition digit :: "nat \<Rightarrow> char" where
  "digit d = ''0123456789'' ! d"

definition two_digits :: "nat \<Rightarrow> string" where
  "two_digits n = [digit (n div 10), digit (n mod 10)]"

definition strftime_HMS :: "tm \<Rightarrow> string" where
  "strftime_HMS t =
     two_digits (tm_hour t) @ '':'' @ two_digits (tm_min t) @ '':'' @ two_digits (tm_sec t)"

definition getTimestamp :: "(nat \<Rightarrow> tm) \<Rightarrow> nat \<Rightarrow> string \<times> nat" where
  "getTimestamp clock k = (strftime_HMS (clock k), Suc k)"

text \<open>
  \<open>std::fixed << std::setprecision(2)\<close> (lines 91 and 101) puts a stream into fixed
  notation with two digits after the decimal point; the flags stay in force for the
  values inserted at line 95. A number inserted under these flags is printed as by the
  conversion \<open>%.2f\<close>: a minus sign if it is negative, the integer part in decimal without
  leading zeros, a point, and two decimals, the number being rounded to the nearest
  hundredth and a tie to the even one. \<open>dec\<close> writes a natural number in decimal.
\<close>

function dec :: "nat \<Rightarrow> string" where
  "dec n = (if n < 10 then [digit n] else dec (n div 10) @ [digit (n mod 10)])"
  by pat_completeness auto
termination
  by (relation "measure id") auto

definition round_half_even :: "real \<Rightarrow> nat" where
  "round_half_even x =
     (let f = nat \<lfloor>x\<rfloor>; r = x - real f
      in if r < 1 / 2 then f else if 1 / 2 < r then Suc f else if even f then f else Suc f)"

definition fixed2 :: "real \<Rightarrow> string" where
  "fixed2 x =
     (let n = round_half_even (\<bar>x\<bar> * 100)
      in (if x < 0 then ''-'' else []) @ dec (n div 100) @ ''.'' @ two_digits (n mod 100))"

text \<open>
  The state of \<open>main\<close> while the loop runs: the two static engines, the local variable
  \<open>time\<close>, the characters written so far to \<open>logfile\<close> and to \<open>std::cout\<close>, and the number of
  clock readings taken. Both streams are modelled by the text they have received.
  The functions of the loop take as \<open>fmt2\<close> the conversion that the stream flags in force
  apply to a \<open>double\<close>; \<open>main\<close> runs them with \<open>fixed2\<close>, the conversion that the
  manipulators of lines 91 and 101 select.
\<close>

record 'g run_state =
  gens :: "'g engines"
  time :: real
  logfile :: string
  cout :: string
  ticks :: nat

text \<open>The loop \<open>for (double v : values) logfile << "," << v;\<close>\<close>

fun write_values :: "(real \<Rightarrow> string) \<Rightarrow> real list \<Rightarrow> string \<Rightarrow> string" where
  "write_values fmt2 [] out = out"
| "write_values fmt2 (v # rest) out = write_values fmt2 rest (out @ '','' @ fmt2 v)"

text \<open>
  The loop \<open>for (size_t j = 0; j < types.size(); ++j)\<close> that prints label and reading of
  position \<open>j\<close> to \<open>std::cout\<close>.
\<close>

function print_pairs ::
  "(real \<Rightarrow> string) \<Rightarrow> string list \<Rightarrow> real list \<Rightarrow> nat \<Rightarrow> string \<Rightarrow> string" where
  "print_pairs fmt2 types values j out =
     (if j < length types
      then print_pairs fmt2 types values (Suc j)
             (out @ types ! j @ '': '' @ fmt2 (values ! j) @ ''  '')
      else out)"
  by pat_completeness auto
termination
  by (relation "measure (\<lambda>(fmt2, types, vs, j, out). length types - j)") auto

definition dt :: real where
  "dt = 1"

text \<open>One pass through the body of the sampling loop (lines 88-105).\<close>

definition sample ::
  "(real \<Rightarrow> string) \<Rightarrow> 'g dist \<Rightarrow> (nat \<Rightarrow> tm) \<Rightarrow> SensorManager \<Rightarrow> 'g run_state \<Rightarrow> 'g run_state" where
  "sample fmt2 draw clock manager s =
     (let (values, g1) = readAll draw manager (gens s);
          types = getSensorTypes manager;
          (stamp1, k1) = getTimestamp clock (ticks s);
          log1 = logfile s @ fmt2 (time s) @ '','' @ stamp1;
          log2 = write_values fmt2 values log1;
          log3 = log2 @ ''\<newline>'';
          (stamp2, k2) = getTimestamp clock k1;
          out1 = cout s @ ''['' @ stamp2 @ ''] '';
          out2 = print_pairs fmt2 types values 0 out1;
          out3 = out2 @ ''\<newline>''
      in \<lparr>gens = g1, time = time s + dt, logfile = log3, cout = out3, ticks = k2\<rparr>)"

text \<open>The loop \<open>for (int i = 0; i < totalSamples; ++i)\<close>.\<close>

function main_loop ::
  "(real \<Rightarrow> string) \<Rightarrow> 'g dist \<Rightarrow> (nat \<Rightarrow> tm) \<Rightarrow> SensorManager \<Rightarrow> nat \<Rightarrow> nat \<Rightarrow>
   'g run_state \<Rightarrow> 'g run_state" where
  "main_loop fmt2 draw clock manager totalSamples i s =
     (if i < totalSamples
      then main_loop fmt2 draw clock manager totalSamples (Suc i) (sample fmt2 draw clock manager s)
      else s)"
  by pat_completeness auto
termination
  by (relation "measure (\<lambda>(fmt2, draw, clock, manager, totalSamples, i, s). totalSamples - i)") auto

definition totalSamples :: nat where
  "totalSamples = 20"

definition header :: string where
  "header = ''Time(s),Timestamp,Temperature(C),Pressure(bar)\<newline>''"

definition main_manager :: SensorManager where
  "main_manager = addSensor (addSensor SensorManager_new TemperatureSensor) PressureSensor"

text \<open>
  The state on entry to the loop. Both engines are default-constructed objects of the same
  type; \<open>g0\<close> is the state of a default-constructed engine.
\<close>

definition main_init :: "'g \<Rightarrow> 'g run_state" where
  "main_init g0 =
     \<lparr>gens = \<lparr>temp_gen = g0, pres_gen = g0\<rparr>, time = 0, logfile = header,
      cout = ''Logging sensor data to sensor_data.csv ...\<newline>'', ticks = 0\<rparr>"

definition farewell :: string where
  "farewell = ''Data logging complete. File saved as sensor_data.csv '' @
     [CHR 0xC3, CHR 0xA2, CHR 0xC5, CHR 0x93, CHR 0xE2, CHR 0x80, CHR 0xA6] @ ''\<newline>''"

definition main :: "'g dist \<Rightarrow> 'g \<Rightarrow> (nat \<Rightarrow> tm) \<Rightarrow> 'g run_state" where
  "main draw g0 clock =
     (let s = main_loop fixed2 draw clock main_manager totalSamples 0 (main_init g0)
      in s\<lparr>cout := cout s @ farewell\<rparr>)"

text \<open>The state in which the loop body runs for the \<open>k\<close>-th time (\<open>k\<close> counted from 0).\<close>

definition state_at ::
  "(real \<Rightarrow> string) \<Rightarrow> 'g dist \<Rightarrow> 'g \<Rightarrow> (nat \<Rightarrow> tm) \<Rightarrow> nat \<Rightarrow> 'g run_state" where
  "state_at fmt2 draw g0 clock k = (sample fmt2 draw clock main_manager ^^ k) (main_init g0)"

section \<open>Notions used to state the properties\<close>

text \<open>
  The engine state reached from \<open>st\<close> after one \<open>readValue\<close> call on each sensor of \<open>ss\<close>,
  in the order of \<open>ss\<close>; and the list whose \<open>i\<close>-th entry is the result of calling
  \<open>readValue\<close> on the \<open>i\<close>-th sensor in the state left by the calls on the sensors before it.
\<close>

definition engines_after :: "'g dist \<Rightarrow> Sensor list \<Rightarrow> 'g engines \<Rightarrow> 'g engines" where
  "engines_after draw ss st = foldl (\<lambda>st' s. snd (readValue draw s st')) st ss"

definition readings_in_order :: "'g dist \<Rightarrow> Sensor list \<Rightarrow> 'g engines \<Rightarrow> real list" where
  "readings_in_order draw ss st =
     map (\<lambda>i. fst (readValue draw (ss ! i) (engines_after draw (take i ss) st))) [0..<length ss]"

text \<open>The engine that belongs to a variant.\<close>

fun gen_of :: "Sensor \<Rightarrow> 'g engines \<Rightarrow> 'g" where
  "gen_of TemperatureSensor st = temp_gen st"
| "gen_of PressureSensor st = pres_gen st"

text \<open>The readings of \<open>n\<close> successive calls of \<open>readValue\<close> on a sensor.\<close>

fun readValue_repeat :: "'g dist \<Rightarrow> Sensor \<Rightarrow> nat \<Rightarrow> 'g engines \<Rightarrow> real list" where
  "readValue_repeat draw s 0 st = []"
| "readValue_repeat draw s (Suc n) st =
     (let (v, st') = readValue draw s st in v # readValue_repeat draw s n st')"

text \<open>
  What the C++ standard requires of \<open>uniform_real_distribution\<close>: constructed with
  \<open>a < b\<close>, every number it produces lies in the half-open interval from \<open>a\<close> to \<open>b\<close>.
\<close>

definition dist_contract :: "'g dist \<Rightarrow> bool" where
  "dist_contract draw \<longleftrightarrow> (\<forall>a b g. a < b \<longrightarrow> a \<le> fst (draw a b g) \<and> fst (draw a b g) < b)"

text \<open>
  What the text model needs of the number formatter: the text of a number contains neither
  the field separator nor a line break.
\<close>

definition plain_format :: "(real \<Rightarrow> string) \<Rightarrow> bool" where
  "plain_format fmt2 \<longleftrightarrow>
     (\<forall>v. CHR '','' \<notin> set (fmt2 v) \<and> CHR ''\<newline>'' \<notin> set (fmt2 v))"

text \<open>The ranges of the fields of a broken-down time, as \<open>localtime\<close> delivers them.\<close>

definition tm_ok :: "tm \<Rightarrow> bool" where
  "tm_ok t \<longleftrightarrow> tm_hour t < 24 \<and> tm_min t < 60 \<and> tm_sec t \<le> 60"

text \<open>
  Splitting a text at a separator character (\<open>n\<close> separators give \<open>n + 1\<close> pieces), and
  the lines of a text file: the pieces that a line break terminates.
\<close>

fun split_on :: "char \<Rightarrow> string \<Rightarrow> string list" where
  "split_on c [] = [ [] ]"
| "split_on c (x # xs) =
     (if x = c then [] # split_on c xs
      else (case split_on c xs of [] \<Rightarrow> [ [x] ] | p # ps \<Rightarrow> (x # p) # ps))"

definition file_lines :: "string \<Rightarrow> string list" where
  "file_lines content = butlast (split_on CHR ''\<newline>'' content)"

text \<open>
  Reading printed text back. \<open>parse_nat\<close> reads a non-empty string of decimal digits.
  \<open>parse_fixed2\<close> accepts exactly the texts that consist of an optional minus sign, at
  least one digit, a point and two digits, and returns whether the sign is there and the
  number of hundredths written. \<open>parse_HMS\<close> accepts exactly the texts of two digits, a
  colon, two digits, a colon and two digits, and returns the three numbers.
\<close>

definition digit_value :: "char \<Rightarrow> nat option" where
  "digit_value c = (if c \<in> set ''0123456789'' then Some (of_char c - 48) else None)"

fun parse_digits :: "string \<Rightarrow> nat \<Rightarrow> nat option" where
  "parse_digits [] acc = Some acc"
| "parse_digits (c # cs) acc =
     (case digit_value c of None \<Rightarrow> None | Some d \<Rightarrow> parse_digits cs (10 * acc + d))"

definition parse_nat :: "string \<Rightarrow> nat option" where
  "parse_nat s = (if s = [] then None else parse_digits s 0)"

definition parse_fixed2 :: "string \<Rightarrow> (bool \<times> nat) option" where
  "parse_fixed2 s =
     (let neg = (s \<noteq> [] \<and> hd s = CHR ''-'');
          b = (if neg then tl s else s)
      in if 4 \<le> length b \<and> b ! (length b - 3) = CHR ''.''
         then (case (parse_nat (take (length b - 3) b), parse_nat (drop (length b - 2) b)) of
                 (Some i, Some f) \<Rightarrow> Some (neg, 100 * i + f)
               | _ \<Rightarrow> None)
         else None)"

definition parse_HMS :: "string \<Rightarrow> tm option" where
  "parse_HMS s =
     (if length s = 8 \<and> s ! 2 = CHR '':'' \<and> s ! 5 = CHR '':''
      then (case (parse_nat (take 2 s), parse_nat (take 2 (drop 3 s)), parse_nat (drop 6 s)) of
              (Some h, Some m, Some sec) \<Rightarrow> Some \<lparr>tm_hour = h, tm_min = m, tm_sec = sec\<rparr>
            | _ \<Rightarrow> None)
      else None)"

text \<open>
  The console line of a sample read word by word from the interface description: the
  timestamp in brackets, then per sensor the label, a colon, the reading and two spaces.
\<close>

definition described_console_line ::
  "(real \<Rightarrow> string) \<Rightarrow> string \<Rightarrow> string list \<Rightarrow> real list \<Rightarrow> string" where
  "described_console_line fmt2 stamp types values =
     ''['' @ stamp @ '']'' @
     concat (map (\<lambda>j. types ! j @ '':'' @ fmt2 (values ! j) @ ''  '') [0..<length types]) @
     ''\<newline>''"

text \<open>The vector \<open>values\<close> that the \<open>k\<close>-th pass through the loop body obtains from \<open>readAll\<close>.\<close>

definition readings_at ::
  "(real \<Rightarrow> string) \<Rightarrow> 'g dist \<Rightarrow> 'g \<Rightarrow> (nat \<Rightarrow> tm) \<Rightarrow> nat \<Rightarrow> real list" where
  "readings_at fmt2 draw g0 clock k =
     fst (readAll draw main_manager (gens (state_at fmt2 draw g0 clock k)))"

text \<open>
  The \<open>k\<close>-th number of the stream that a distribution with bounds \<open>a\<close>, \<open>b\<close> draws from an
  engine started in state \<open>g0\<close>.
\<close>

definition stream_at :: "'g dist \<Rightarrow> real \<Rightarrow> real \<Rightarrow> 'g \<Rightarrow> nat \<Rightarrow> real" where
  "stream_at draw a b g0 k = fst (draw a b (((\<lambda>g. snd (draw a b g)) ^^ k) g0))"

text \<open>
  The header row without its line break, and the text that the \<open>k\<close>-th pass through the
  loop body writes to \<open>logfile\<close> before the line break.
\<close>

definition header_line :: string where
  "header_line = ''Time(s),Timestamp,Temperature(C),Pressure(bar)''"

definition csv_row ::
  "(real \<Rightarrow> string) \<Rightarrow> 'g dist \<Rightarrow> 'g \<Rightarrow> (nat \<Rightarrow> tm) \<Rightarrow> nat \<Rightarrow> string" where
  "csv_row fmt2 draw g0 clock k =
     fmt2 (real k) @ '','' @ strftime_HMS (clock (2 * k)) @
     concat (map (\<lambda>v. '','' @ fmt2 v) (readings_at fmt2 draw g0 clock k))"

section \<open>A concrete library, for running the model\<close>

text \<open>
  A small linear congruential engine with a distribution that scales its state into the
  requested interval, and a clock that starts ten seconds before midnight and advances
  one second per sample.
\<close>

definition sample_draw :: "nat dist" where
  "sample_draw a b g = (a + (b - a) * (real (g mod 16) / 16), (5 * g + 3) mod 16)"

text \<open>An engine whose state is the number of draws made from it.\<close>

definition counting_draw :: "nat dist" where
  "counting_draw a b n = (a, Suc n)"

definition sample_clock :: "nat \<Rightarrow> tm" where
  "sample_clock k =
     (let s = 50 + k div 2
      in \<lparr>tm_hour = (23 + (59 + s div 60) div 60) mod 24,
          tm_min = (59 + s div 60) mod 60,
          tm_sec = s mod 60\<rparr>)"

section \<open>Basic facts about the manager\<close>

lemma sensors_addSensor: "sensors (addSensor m s) = sensors m @ [s]"
  by (simp add: addSensor_def)

lemma sensors_foldl_addSensor: "sensors (foldl addSensor m ss) = sensors m @ ss"
  by (induction ss arbitrary: m) (simp_all add: sensors_addSensor)

lemma getSensorTypes_loop_map: "getSensorTypes_loop ss types = types @ map getType ss"
  by (induction ss arbitrary: types) simp_all

lemma getSensorTypes_map: "getSensorTypes m = map getType (sensors m)"
  by (simp add: getSensorTypes_def getSensorTypes_loop_map)

lemma length_readAll_loop:
  "length (fst (readAll_loop draw ss values st)) = length values + length ss"
  by (induction ss arbitrary: "values" st) (simp_all split: prod.splits)

lemma length_readAll: "length (fst (readAll draw m st)) = length (sensors m)"
  by (simp add: readAll_def length_readAll_loop)

lemma engines_after_Nil: "engines_after draw [] st = st"
  by (simp add: engines_after_def)

lemma engines_after_Cons:
  "engines_after draw (s # ss) st = engines_after draw ss (snd (readValue draw s st))"
  by (simp add: engines_after_def)

lemma readings_in_order_Nil: "readings_in_order draw [] st = []"
  by (simp add: readings_in_order_def)

lemma readings_in_order_Cons:
  "readings_in_order draw (s # ss) st =
     fst (readValue draw s st) # readings_in_order draw ss (snd (readValue draw s st))"
proof -
  have "[0..<length (s # ss)] = 0 # map Suc [0..<length ss]"
    by (simp add: upt_conv_Cons map_Suc_upt del: upt_Suc)
  then show ?thesis
    by (simp add: readings_in_order_def engines_after_Cons engines_after_Nil comp_def del: upt_Suc)
qed

lemma readAll_loop_eq:
  "readAll_loop draw ss values st =
     (values @ readings_in_order draw ss st, engines_after draw ss st)"
proof (induction ss arbitrary: "values" st)
  case Nil
  show ?case by (simp add: readings_in_order_Nil engines_after_Nil)
next
  case (Cons s ss)
  show ?case
    by (simp add: Cons.IH readings_in_order_Cons engines_after_Cons split: prod.splits)
qed

lemma readAll_eq:
  "readAll draw m st =
     (readings_in_order draw (sensors m) st, engines_after draw (sensors m) st)"
  by (simp add: readAll_def readAll_loop_eq)

lemma readAll_nth:
  assumes "i < length (sensors m)"
  shows "fst (readAll draw m st) ! i =
           fst (readValue draw (sensors m ! i) (engines_after draw (take i (sensors m)) st))"
  using assms by (simp add: readAll_eq readings_in_order_def)

lemma main_manager_sensors: "sensors main_manager = [TemperatureSensor, PressureSensor]"
  by (simp add: main_manager_def addSensor_def SensorManager_new_def)

lemma readValue_counting:
  "snd (readValue counting_draw TemperatureSensor st) = st\<lparr>temp_gen := Suc (temp_gen st)\<rparr>"
  "snd (readValue counting_draw PressureSensor st) = st\<lparr>pres_gen := Suc (pres_gen st)\<rparr>"
  by (simp_all add: counting_draw_def)

lemma engines_after_counting:
  "engines_after counting_draw ss st =
     \<lparr>temp_gen = temp_gen st + count_list ss TemperatureSensor,
      pres_gen = pres_gen st + count_list ss PressureSensor\<rparr>"
proof (induction ss arbitrary: st)
  case Nil
  show ?case by (simp add: engines_after_Nil)
next
  case (Cons s ss)
  show ?case
    by (cases s)
      (simp_all add: engines_after_Cons Cons.IH readValue_counting del: readValue.simps)
qed

section \<open>Basic facts about the sensors\<close>

lemma sample_draw_contract: "dist_contract sample_draw"
proof -
  have "a \<le> a + (b - a) * (real (g mod 16) / 16) \<and> a + (b - a) * (real (g mod 16) / 16) < b"
    if "a < b" for a b :: real and g :: nat
  proof -
    define f where "f = real (g mod 16) / 16"
    have "g mod 16 < 16" by simp
    then have f: "0 \<le> f" "f < 1" by (simp_all add: f_def)
    have "0 \<le> (b - a) * f"
      using that f by simp
    moreover have "(b - a) * f < (b - a) * 1"
      using that f by (intro mult_strict_left_mono) simp_all
    ultimately show ?thesis
      unfolding f_def by simp
  qed
  then show ?thesis
    by (simp add: dist_contract_def sample_draw_def)
qed

lemma readValue_in_range:
  assumes "dist_contract draw"
  shows "20 \<le> fst (readValue draw TemperatureSensor st)"
    and "fst (readValue draw TemperatureSensor st) < 30"
    and "9 / 10 \<le> fst (readValue draw PressureSensor st)"
    and "fst (readValue draw PressureSensor st) < 11 / 10"
proof -
  have t: "20 \<le> fst (draw 20 30 (temp_gen st)) \<and> fst (draw 20 30 (temp_gen st)) < 30"
  proof -
    have "(20 :: real) < 30" by simp
    then show ?thesis
      using assms unfolding dist_contract_def by blast
  qed
  have p: "9 / 10 \<le> fst (draw (9 / 10) (11 / 10) (pres_gen st)) \<and>
           fst (draw (9 / 10) (11 / 10) (pres_gen st)) < 11 / 10"
  proof -
    have "(9 / 10 :: real) < 11 / 10" by simp
    then show ?thesis
      using assms unfolding dist_contract_def by blast
  qed
  show "20 \<le> fst (readValue draw TemperatureSensor st)"
    and "fst (readValue draw TemperatureSensor st) < 30"
    using t by (simp_all add: split_beta)
  show "9 / 10 \<le> fst (readValue draw PressureSensor st)"
    and "fst (readValue draw PressureSensor st) < 11 / 10"
    using p by (simp_all add: split_beta)
qed

lemma readValue_repeat_range:
  assumes "dist_contract draw"
  shows "\<forall>v \<in> set (readValue_repeat draw TemperatureSensor n st). 20 \<le> v \<and> v < 30"
    and "\<forall>v \<in> set (readValue_repeat draw PressureSensor n st). 9 / 10 \<le> v \<and> v < 11 / 10"
proof -
  show "\<forall>v \<in> set (readValue_repeat draw TemperatureSensor n st). 20 \<le> v \<and> v < 30"
  proof (induction n arbitrary: st)
    case 0
    show ?case by simp
  next
    case (Suc n)
    have "readValue_repeat draw TemperatureSensor (Suc n) st =
       fst (readValue draw TemperatureSensor st) #
       readValue_repeat draw TemperatureSensor n (snd (readValue draw TemperatureSensor st))"
      by (simp add: split_beta del: readValue.simps)
    then show ?case
      using Suc.IH readValue_in_range(1,2) [OF assms] by simp
  qed
  show "\<forall>v \<in> set (readValue_repeat draw PressureSensor n st). 9 / 10 \<le> v \<and> v < 11 / 10"
  proof (induction n arbitrary: st)
    case 0
    show ?case by simp
  next
    case (Suc n)
    have "readValue_repeat draw PressureSensor (Suc n) st =
       fst (readValue draw PressureSensor st) #
       readValue_repeat draw PressureSensor n (snd (readValue draw PressureSensor st))"
      by (simp add: split_beta del: readValue.simps)
    then show ?case
      using Suc.IH readValue_in_range(3,4) [OF assms] by simp
  qed
qed

lemma length_readValue_repeat: "length (readValue_repeat draw s n st) = n"
  by (induction n arbitrary: st) (simp_all add: split_beta del: readValue.simps)

section \<open>Basic facts about the driver\<close>

declare print_pairs.simps [simp del]
declare main_loop.simps [simp del]
declare dec.simps [simp del]

lemma write_values_eq:
  "write_values fmt2 values out = out @ concat (map (\<lambda>v. '','' @ fmt2 v) values)"
  by (induction "values" arbitrary: out) simp_all

lemma print_pairs_eq:
  "print_pairs fmt2 types values j out =
     out @ concat (map (\<lambda>i. types ! i @ '': '' @ fmt2 (values ! i) @ ''  '') [j..<length types])"
proof (induction fmt2 types "values" j out rule: print_pairs.induct)
  case (1 fmt2 types vs j out)
  show ?case
  proof (cases "j < length types")
    case True
    then have "[j..<length types] = j # [Suc j..<length types]"
      by (simp add: upt_conv_Cons)
    then show ?thesis
      using True "1.IH" by (subst print_pairs.simps) simp
  next
    case False
    then show ?thesis
      by (subst print_pairs.simps) simp
  qed
qed

lemma sample_gens: "gens (sample fmt2 draw clock m s) = snd (readAll draw m (gens s))"
  by (simp add: sample_def getTimestamp_def split_beta Let_def)

lemma sample_time: "time (sample fmt2 draw clock m s) = time s + 1"
  by (simp add: sample_def getTimestamp_def split_beta Let_def dt_def)

lemma sample_ticks: "ticks (sample fmt2 draw clock m s) = ticks s + 2"
  by (simp add: sample_def getTimestamp_def split_beta Let_def)

lemma sample_logfile:
  "logfile (sample fmt2 draw clock m s) =
     logfile s @ fmt2 (time s) @ '','' @ strftime_HMS (clock (ticks s)) @
     concat (map (\<lambda>v. '','' @ fmt2 v) (fst (readAll draw m (gens s)))) @ ''\<newline>''"
  by (simp add: sample_def getTimestamp_def split_beta Let_def write_values_eq)

lemma sample_cout:
  "cout (sample fmt2 draw clock m s) =
     cout s @ ''['' @ strftime_HMS (clock (Suc (ticks s))) @ ''] '' @
     concat (map (\<lambda>j. getType (sensors m ! j) @ '': '' @
                        fmt2 (fst (readAll draw m (gens s)) ! j) @ ''  '')
               [0..<length (sensors m)]) @ ''\<newline>''"
proof -
  have "map (\<lambda>j. getSensorTypes m ! j @ '': '' @ fmt2 (fst (readAll draw m (gens s)) ! j) @ ''  '')
          [0..<length (getSensorTypes m)]
      = map (\<lambda>j. getType (sensors m ! j) @ '': '' @ fmt2 (fst (readAll draw m (gens s)) ! j) @ ''  '')
          [0..<length (sensors m)]"
    by (rule map_cong) (simp_all add: getSensorTypes_map)
  then show ?thesis
    by (simp add: sample_def getTimestamp_def split_beta Let_def print_pairs_eq)
qed

lemma main_loop_funpow:
  "main_loop fmt2 draw clock m n i s = (sample fmt2 draw clock m ^^ (n - i)) s"
proof (induction fmt2 draw clock m n i s rule: main_loop.induct)
  case (1 fmt2 draw clock m n i s)
  show ?case
  proof (cases "i < n")
    case True
    then have "n - i = Suc (n - Suc i)"
      by simp
    then show ?thesis
      using True "1.IH" by (subst main_loop.simps) (simp add: funpow_swap1)
  next
    case False
    then show ?thesis
      by (subst main_loop.simps) simp
  qed
qed

lemma state_at_0: "state_at fmt2 draw g0 clock 0 = main_init g0"
  by (simp add: state_at_def)

lemma state_at_Suc:
  "state_at fmt2 draw g0 clock (Suc k) =
     sample fmt2 draw clock main_manager (state_at fmt2 draw g0 clock k)"
  by (simp add: state_at_def)

lemma main_eq:
  "main draw g0 clock =
     (state_at fixed2 draw g0 clock 20)\<lparr>cout := cout (state_at fixed2 draw g0 clock 20) @ farewell\<rparr>"
  by (simp add: main_def main_loop_funpow state_at_def totalSamples_def Let_def)

lemma time_state_at: "time (state_at fmt2 draw g0 clock k) = real k"
  by (induction k) (simp_all add: state_at_0 state_at_Suc sample_time main_init_def)

lemma ticks_state_at: "ticks (state_at fmt2 draw g0 clock k) = 2 * k"
  by (induction k) (simp_all add: state_at_0 state_at_Suc sample_ticks main_init_def)

lemma readAll_main_manager:
  "readAll draw main_manager st =
     ([fst (draw 20 30 (temp_gen st)), fst (draw (9 / 10) (11 / 10) (pres_gen st))],
      \<lparr>temp_gen = snd (draw 20 30 (temp_gen st)),
       pres_gen = snd (draw (9 / 10) (11 / 10) (pres_gen st))\<rparr>)"
  by (simp add: readAll_def main_manager_sensors split_beta)

lemma gens_state_at:
  "gens (state_at fmt2 draw g0 clock k) =
     \<lparr>temp_gen = ((\<lambda>g. snd (draw 20 30 g)) ^^ k) g0,
      pres_gen = ((\<lambda>g. snd (draw (9 / 10) (11 / 10) g)) ^^ k) g0\<rparr>"
  by (induction k)
    (simp_all add: state_at_0 state_at_Suc sample_gens main_init_def readAll_main_manager)

section \<open>Facts about the text written by the driver\<close>

lemma split_on_no_sep: "c \<notin> set a \<Longrightarrow> split_on c a = [a]"
  by (induction a) auto

lemma split_on_append: "c \<notin> set a \<Longrightarrow> split_on c (a @ c # b) = a # split_on c b"
  by (induction a) auto

lemma split_on_terminated:
  "\<forall>x \<in> set xs. c \<notin> set x \<Longrightarrow> split_on c (concat (map (\<lambda>x. x @ [c]) xs)) = xs @ [ [] ]"
  by (induction xs) (simp_all add: split_on_append)

lemma file_lines_terminated:
  assumes "\<forall>x \<in> set xs. CHR ''\<newline>'' \<notin> set x"
  shows "file_lines (concat (map (\<lambda>x. x @ ''\<newline>'') xs)) = xs"
    and "last (split_on CHR ''\<newline>'' (concat (map (\<lambda>x. x @ ''\<newline>'') xs))) = []"
  using split_on_terminated [OF assms] by (simp_all add: file_lines_def)

lemma digit_cases:
  "d < 10 \<Longrightarrow> digit d \<in> set ''0123456789''"
  unfolding digit_def by (rule nth_mem) simp

lemma digit_plain: "d < 10 \<Longrightarrow> digit d \<noteq> CHR '','' \<and> digit d \<noteq> CHR ''\<newline>''"
  using digit_cases [of d] by auto

lemma two_digits_plain:
  "n < 100 \<Longrightarrow> CHR '','' \<notin> set (two_digits n) \<and> CHR ''\<newline>'' \<notin> set (two_digits n)"
proof -
  assume "n < 100"
  then have "n div 10 < 10" "n mod 10 < 10"
    by simp_all
  then show ?thesis
    using digit_plain [of "n div 10"] digit_plain [of "n mod 10"]
    by (auto simp add: two_digits_def)
qed

lemma strftime_HMS_plain:
  assumes "tm_ok t"
  shows "CHR '','' \<notin> set (strftime_HMS t) \<and> CHR ''\<newline>'' \<notin> set (strftime_HMS t)"
proof -
  have "tm_hour t < 100" "tm_min t < 100" "tm_sec t < 100"
    using assms by (simp_all add: tm_ok_def)
  then show ?thesis
    using two_digits_plain [of "tm_hour t"] two_digits_plain [of "tm_min t"]
      two_digits_plain [of "tm_sec t"]
    by (simp add: strftime_HMS_def)
qed

lemma dec_plain: "CHR '','' \<notin> set (dec n) \<and> CHR ''\<newline>'' \<notin> set (dec n)"
proof (induction n rule: dec.induct)
  case (1 n)
  show ?case
  proof (cases "n < 10")
    case True
    then show ?thesis
      using digit_plain [of n] by (auto simp add: dec.simps [of n])
  next
    case False
    then show ?thesis
      using "1.IH" digit_plain [of "n mod 10"]
      by (auto simp add: dec.simps [of n])
  qed
qed

lemma fixed2_plain: "plain_format fixed2"
proof -
  have "CHR '','' \<notin> set (fixed2 v) \<and> CHR ''\<newline>'' \<notin> set (fixed2 v)" for v
    using dec_plain two_digits_plain [of "round_half_even (\<bar>v\<bar> * 100) mod 100"]
    by (simp add: fixed2_def Let_def)
  then show ?thesis
    by (simp add: plain_format_def)
qed

lemma sample_clock_ok: "tm_ok (sample_clock k)"
  by (simp add: tm_ok_def sample_clock_def Let_def)

lemma digit_value_digit: "d < 10 \<Longrightarrow> digit_value (digit d) = Some d"
proof -
  assume "d < 10"
  then have "d = 0 \<or> d = 1 \<or> d = 2 \<or> d = 3 \<or> d = 4 \<or> d = 5 \<or> d = 6 \<or> d = 7 \<or> d = 8 \<or> d = 9"
    by arith
  then show ?thesis
    by (elim disjE) (simp_all add: digit_def digit_value_def)
qed

lemma digit_not_minus: "d < 10 \<Longrightarrow> digit d \<noteq> CHR ''-''"
proof -
  assume "d < 10"
  then have "digit d \<in> set ''0123456789''"
    unfolding digit_def by (intro nth_mem) simp
  then show ?thesis by auto
qed

lemma parse_digits_append:
  "parse_digits (xs @ ys) acc =
     (case parse_digits xs acc of None \<Rightarrow> None | Some a \<Rightarrow> parse_digits ys a)"
  by (induction xs arbitrary: acc) (simp_all split: option.splits)

lemma parse_digits_dec: "parse_digits (dec n) 0 = Some n"
proof (induction n rule: dec.induct)
  case (1 n)
  show ?case
  proof (cases "n < 10")
    case True
    then show ?thesis
      by (simp add: dec.simps [of n] digit_value_digit)
  next
    case False
    then have "parse_digits (dec (n div 10)) 0 = Some (n div 10)"
      using "1.IH" by simp
    then show ?thesis
      using False by (simp add: dec.simps [of n] parse_digits_append digit_value_digit)
  qed
qed

lemma dec_nonempty: "dec n \<noteq> []"
  by (simp add: dec.simps [of n])

lemma hd_dec_not_minus: "hd (dec n) \<noteq> CHR ''-''"
proof (induction n rule: dec.induct)
  case (1 n)
  show ?case
  proof (cases "n < 10")
    case True
    then show ?thesis
      by (simp add: dec.simps [of n] digit_not_minus)
  next
    case False
    then show ?thesis
      using "1.IH" dec_nonempty [of "n div 10"] by (simp add: dec.simps [of n])
  qed
qed

lemma parse_nat_dec: "parse_nat (dec n) = Some n"
  by (simp add: parse_nat_def dec_nonempty parse_digits_dec)

lemma parse_nat_two_digits: "n < 100 \<Longrightarrow> parse_nat (two_digits n) = Some n"
proof -
  assume "n < 100"
  then have "n div 10 < 10" "n mod 10 < 10"
    by simp_all
  then show ?thesis
    by (simp add: parse_nat_def two_digits_def digit_value_digit)
qed

lemma parse_fixed2_body:
  assumes "r < 100"
  shows "parse_fixed2 (dec q @ ''.'' @ two_digits r) = Some (False, 100 * q + r)"
proof -
  let ?b = "dec q @ ''.'' @ two_digits r"
  have len: "length ?b = length (dec q) + 3"
    by (simp add: two_digits_def)
  have l2: "length (two_digits r) = 2"
    by (simp add: two_digits_def)
  have nn: "\<not> (?b \<noteq> [] \<and> hd ?b = CHR ''-'')"
    using hd_dec_not_minus [of q] dec_nonempty [of q] by simp
  have dot: "?b ! (length ?b - 3) = CHR ''.''"
    by (simp add: l2 nth_append)
  have ip: "take (length ?b - 3) ?b = dec q"
    by (simp add: l2)
  have fp: "drop (length ?b - 2) ?b = two_digits r"
    by (simp add: l2)
  have four: "4 \<le> length ?b"
    using dec_nonempty [of q] by (cases "dec q") (simp_all add: l2)
  show ?thesis
    unfolding parse_fixed2_def Let_def
    using nn dot four
    by (simp only: ip fp if_False if_True parse_nat_dec parse_nat_two_digits [OF assms]
        simp_thms) simp
qed

lemma round_half_even_near: "\<bar>real (round_half_even \<bar>x\<bar>) - \<bar>x\<bar>\<bar> \<le> 1 / 2"
proof -
  define y where "y = \<bar>x\<bar>"
  define fl where "fl = real (nat \<lfloor>y\<rfloor>)"
  have "0 \<le> y"
    by (simp add: y_def)
  then have "fl = of_int \<lfloor>y\<rfloor>"
    by (simp add: fl_def)
  then have lo: "fl \<le> y" and hi: "y < fl + 1"
    by linarith+
  have rhe: "round_half_even y =
      (if y - fl < 1 / 2 then nat \<lfloor>y\<rfloor> else if 1 / 2 < y - fl then Suc (nat \<lfloor>y\<rfloor>)
       else if even (nat \<lfloor>y\<rfloor>) then nat \<lfloor>y\<rfloor> else Suc (nat \<lfloor>y\<rfloor>))"
    unfolding round_half_even_def Let_def fl_def by (rule refl)
  have "\<bar>real (round_half_even y) - y\<bar> \<le> 1 / 2"
    unfolding rhe using lo hi by (simp add: fl_def [symmetric] split: if_splits)
  then show ?thesis
    by (simp add: y_def)
qed

lemma round_half_even_tie:
  "round_half_even (real n + 1 / 2) = (if even n then n else Suc n)"
proof -
  have "\<lfloor>real n + 1 / 2\<rfloor> = int n"
    by (rule floor_unique) simp_all
  then show ?thesis
    by (simp add: round_half_even_def Let_def)
qed

lemma round_half_even_whole: "round_half_even (real k * 100) = 100 * k"
proof -
  have "real k * 100 = real (100 * k)"
    by simp
  then have "\<lfloor>real k * 100\<rfloor> = int (100 * k)"
    by (metis floor_of_nat)
  then show ?thesis
    by (simp add: round_half_even_def Let_def)
qed

lemma parse_fixed2_fixed2:
  "parse_fixed2 (fixed2 v) = Some (v < 0, round_half_even (\<bar>v\<bar> * 100))"
proof -
  let ?n = "round_half_even (\<bar>v\<bar> * 100)"
  let ?b = "dec (?n div 100) @ ''.'' @ two_digits (?n mod 100)"
  have body: "parse_fixed2 ?b = Some (False, ?n)"
    using parse_fixed2_body [of "?n mod 100" "?n div 100"] by simp
  show ?thesis
  proof (cases "v < 0")
    case False
    then show ?thesis
      using body by (simp add: fixed2_def Let_def)
  next
    case True
    have "parse_fixed2 (CHR ''-'' # ?b) =
        (case parse_fixed2 ?b of None \<Rightarrow> None | Some (s, n) \<Rightarrow> Some (True, n))"
      using hd_dec_not_minus [of "?n div 100"] dec_nonempty [of "?n div 100"]
      by (simp add: parse_fixed2_def Let_def split: option.splits prod.splits)
    then show ?thesis
      using True body by (simp add: fixed2_def Let_def)
  qed
qed

lemma parse_HMS_strftime:
  assumes "tm_ok t"
  shows "parse_HMS (strftime_HMS t) = Some t"
proof -
  have r: "tm_hour t < 100" "tm_min t < 100" "tm_sec t < 100"
    using assms by (simp_all add: tm_ok_def)
  have l2: "length (two_digits n) = 2" for n
    by (simp add: two_digits_def)
  let ?s = "strftime_HMS t"
  have "length ?s = 8" "?s ! 2 = CHR '':''" "?s ! 5 = CHR '':''"
    by (simp_all add: strftime_HMS_def two_digits_def)
  moreover have "take 2 ?s = two_digits (tm_hour t)"
    "take 2 (drop 3 ?s) = two_digits (tm_min t)" "drop 6 ?s = two_digits (tm_sec t)"
    by (simp_all add: strftime_HMS_def two_digits_def)
  ultimately show ?thesis
    by (simp add: parse_HMS_def parse_nat_two_digits r)
qed

lemma fixed2_examples:
  "fixed2 0 = ''0.00''" "fixed2 20 = ''20.00''" "fixed2 (9 / 10) = ''0.90''"
  "fixed2 3 = ''3.00''" "fixed2 (225 / 8) = ''28.12''" "fixed2 (17 / 16) = ''1.06''"
  "fixed2 11 = ''11.00''" "fixed2 (185 / 8) = ''23.12''" "fixed2 (77 / 80) = ''0.96''"
  "fixed2 (175 / 8) = ''21.88''" "fixed2 (- (1 / 1000)) = ''-0.00''"
  by (simp_all add: fixed2_def round_half_even_def two_digits_def digit_def dec.simps Let_def)

lemma split_on_fields:
  "c \<notin> set a \<Longrightarrow> \<forall>v \<in> set vs. c \<notin> set (f v) \<Longrightarrow>
   split_on c (a @ concat (map (\<lambda>v. c # f v) vs)) = a # map f vs"
proof (induction vs arbitrary: a)
  case Nil
  then show ?case by (simp add: split_on_no_sep)
next
  case (Cons v vs)
  have "split_on c (a @ concat (map (\<lambda>v. c # f v) (v # vs)))
      = a # split_on c (f v @ concat (map (\<lambda>v. c # f v) vs))"
    using Cons.prems(1) split_on_append [of c a] by simp
  then show ?case
    using Cons.IH [of "f v"] Cons.prems(2) by simp
qed

lemma readings_at_eq:
  "readings_at fmt2 draw g0 clock k =
     [stream_at draw 20 30 g0 k, stream_at draw (9 / 10) (11 / 10) g0 k]"
  by (simp add: readings_at_def readAll_main_manager gens_state_at stream_at_def)

lemma logfile_state_at_Suc:
  "logfile (state_at fmt2 draw g0 clock (Suc k)) =
     logfile (state_at fmt2 draw g0 clock k) @ csv_row fmt2 draw g0 clock k @ ''\<newline>''"
  by (simp add: state_at_Suc sample_logfile csv_row_def readings_at_def time_state_at
      ticks_state_at)

lemma logfile_state_at:
  "logfile (state_at fmt2 draw g0 clock k) =
     concat (map (\<lambda>x. x @ ''\<newline>'') (header_line # map (csv_row fmt2 draw g0 clock) [0..<k]))"
proof (induction k)
  case 0
  show ?case
    by (simp add: state_at_0 main_init_def header_def header_line_def)
next
  case (Suc k)
  show ?case
    by (simp add: logfile_state_at_Suc Suc.IH)
qed

lemma logfile_main:
  "logfile (main draw g0 clock) =
     concat (map (\<lambda>x. x @ ''\<newline>'') (header_line # map (csv_row fixed2 draw g0 clock) [0..<20]))"
proof -
  have "logfile (main draw g0 clock) = logfile (state_at fixed2 draw g0 clock 20)"
    by (simp add: main_eq)
  then show ?thesis
    by (simp only: logfile_state_at)
qed

lemma csv_row_fields:
  assumes "plain_format fmt2" and "\<forall>k. tm_ok (clock k)"
  shows "split_on CHR '','' (csv_row fmt2 draw g0 clock k) =
           [fmt2 (real k), strftime_HMS (clock (2 * k))] @
           map fmt2 (readings_at fmt2 draw g0 clock k)"
proof -
  have f: "CHR '','' \<notin> set (fmt2 v)" for v
    using assms(1) by (simp add: plain_format_def)
  have t: "CHR '','' \<notin> set (strftime_HMS (clock j))" for j
    using assms(2) strftime_HMS_plain by blast
  let ?rest = "strftime_HMS (clock (2 * k)) # map fmt2 (readings_at fmt2 draw g0 clock k)"
  have eq: "csv_row fmt2 draw g0 clock k =
      fmt2 (real k) @ concat (map (\<lambda>x. CHR '','' # x) ?rest)"
    by (simp add: csv_row_def comp_def)
  have "split_on CHR '','' (fmt2 (real k) @ concat (map (\<lambda>x. CHR '','' # x) ?rest))
      = fmt2 (real k) # map (\<lambda>x. x) ?rest"
    by (rule split_on_fields) (use f t in auto)
  then show ?thesis
    unfolding eq by simp
qed

lemma csv_row_one_line:
  assumes "plain_format fmt2" and "\<forall>k. tm_ok (clock k)"
  shows "CHR ''\<newline>'' \<notin> set (csv_row fmt2 draw g0 clock k)"
proof -
  have f: "CHR ''\<newline>'' \<notin> set (fmt2 v)" for v
    using assms(1) by (simp add: plain_format_def)
  have t: "CHR ''\<newline>'' \<notin> set (strftime_HMS (clock j))" for j
    using assms(2) strftime_HMS_plain by blast
  show ?thesis
    using f t by (auto simp add: csv_row_def)
qed

lemma logfile_main_lines:
  assumes "\<forall>k. tm_ok (clock k)"
  shows "file_lines (logfile (main draw g0 clock)) =
           header_line # map (csv_row fixed2 draw g0 clock) [0..<20]"
    and "last (split_on CHR ''\<newline>'' (logfile (main draw g0 clock))) = []"
proof -
  have "CHR ''\<newline>'' \<notin> set (csv_row fixed2 draw g0 clock j)" for j
    by (rule csv_row_one_line [OF fixed2_plain assms])
  then have "\<forall>x \<in> set (header_line # map (csv_row fixed2 draw g0 clock) [0..<20]).
      CHR ''\<newline>'' \<notin> set x"
    by (auto simp add: header_line_def)
  then show "file_lines (logfile (main draw g0 clock)) =
           header_line # map (csv_row fixed2 draw g0 clock) [0..<20]"
    and "last (split_on CHR ''\<newline>'' (logfile (main draw g0 clock))) = []"
    unfolding logfile_main by (rule file_lines_terminated)+
qed

lemma sample_cout_main_manager:
  "cout (sample fmt2 draw clock main_manager s) =
     cout s @ ''['' @ strftime_HMS (clock (Suc (ticks s))) @ ''] Temperature: '' @
     fmt2 (fst (readAll draw main_manager (gens s)) ! 0) @ ''  Pressure: '' @
     fmt2 (fst (readAll draw main_manager (gens s)) ! 1) @ ''  \<newline>''"
proof -
  have "[0..<length (sensors main_manager)] = [0, 1]"
    by (simp add: main_manager_sensors upt_conv_Cons)
  then show ?thesis
    by (simp add: sample_cout main_manager_sensors)
qed

lemma cout_state_at:
  "cout (state_at fmt2 draw g0 clock k) =
     ''Logging sensor data to sensor_data.csv ...\<newline>'' @
     concat (map (\<lambda>j. ''['' @ strftime_HMS (clock (2 * j + 1)) @ ''] Temperature: '' @
                        fmt2 (readings_at fmt2 draw g0 clock j ! 0) @ ''  Pressure: '' @
                        fmt2 (readings_at fmt2 draw g0 clock j ! 1) @ ''  \<newline>'') [0..<k])"
proof (induction k)
  case 0
  show ?case
    by (simp add: state_at_0 main_init_def)
next
  case (Suc k)
  show ?case
    by (simp add: state_at_Suc sample_cout_main_manager Suc.IH ticks_state_at readings_at_def)
qed

lemma strftime_sample_clock:
  "strftime_HMS (sample_clock 0) = ''23:59:50''"
  "strftime_HMS (sample_clock (Suc 0)) = ''23:59:50''"
  "strftime_HMS (sample_clock 6) = ''23:59:53''"
  "strftime_HMS (sample_clock 7) = ''23:59:53''"
  "strftime_HMS (sample_clock 22) = ''00:00:01''"
  by (simp_all add: strftime_HMS_def sample_clock_def two_digits_def digit_def Let_def)

lemma fixed2_near:
  "\<bar>real (round_half_even (\<bar>v\<bar> * 100)) / 100 - \<bar>v\<bar>\<bar> \<le> 1 / 200"
proof -
  have "\<bar>real (round_half_even \<bar>v * 100\<bar>) - \<bar>v * 100\<bar>\<bar> \<le> 1 / 2"
    by (rule round_half_even_near)
  then have "\<bar>real (round_half_even (\<bar>v\<bar> * 100)) - \<bar>v\<bar> * 100\<bar> \<le> 1 / 2"
    by (simp add: abs_mult)
  then show ?thesis
    by (simp add: field_simps)
qed

lemma sample_draw_state:
  "((\<lambda>g. snd (sample_draw a b g)) ^^ 3) 0 = 13"
  "((\<lambda>g. snd (sample_draw a b g)) ^^ 11) 0 = 5"
proof -
  define stp where "stp = (\<lambda>g::nat. (5 * g + 3) mod 16)"
  have f: "(\<lambda>g. snd (sample_draw a b g)) = stp"
    by (simp add: stp_def sample_draw_def)
  have three: "(stp ^^ Suc (Suc (Suc 0))) 0 = 13"
    by (simp add: stp_def)
  have eleven: "(stp ^^ Suc (Suc (Suc (Suc (Suc (Suc (Suc (Suc (Suc (Suc (Suc 0))))))))))) 0 = 5"
    by (simp add: stp_def)
  have n3: "(3::nat) = Suc (Suc (Suc 0))"
    by simp
  have n11: "(11::nat) = Suc (Suc (Suc (Suc (Suc (Suc (Suc (Suc (Suc (Suc (Suc 0))))))))))"
    by simp
  show "((\<lambda>g. snd (sample_draw a b g)) ^^ 3) 0 = 13"
    unfolding f using three n3 by (simp only:)
  show "((\<lambda>g. snd (sample_draw a b g)) ^^ 11) 0 = 5"
    unfolding f using eleven n11 by (simp only:)
qed

lemma readAll_sample_init:
  "fst (readAll sample_draw main_manager (gens (main_init 0))) = [20, 9 / 10]"
  by (simp add: readAll_main_manager main_init_def sample_draw_def)

section \<open>Claims about the manager\<close>

text \<open>
  C1. Starting from a freshly constructed manager and adding any list \<open>ss\<close> of sensors
  (of any length \<open>N\<close>, zero included), \<open>readAll\<close> returns \<open>N\<close> readings from every engine
  state and \<open>getSensorTypes\<close> returns \<open>N\<close> labels.
\<close>

theorem accessors_length:
  "length (fst (readAll draw (foldl addSensor SensorManager_new ss) st)) = length ss \<and>
   length (getSensorTypes (foldl addSensor SensorManager_new ss)) = length ss"
  by (simp add: length_readAll getSensorTypes_map sensors_foldl_addSensor SensorManager_new_def)

text \<open>
  C4. \<open>addSensor\<close> is a total function: it puts the new sensor at the back, the sensors
  registered before are the prefix of the new sequence, unchanged and in the same order,
  and adding a variant that is already present simply stores it a second time.
\<close>

theorem addSensor_appends:
  "sensors (addSensor m s) = sensors m @ [s] \<and>
   length (sensors (addSensor m s)) = Suc (length (sensors m)) \<and>
   take (length (sensors m)) (sensors (addSensor m s)) = sensors m \<and>
   last (sensors (addSensor m s)) = s \<and>
   sensors (addSensor (addSensor m s) s) = sensors m @ [s, s]"
  by (simp add: sensors_addSensor)

text \<open>
  C6. \<open>getType\<close> takes no state and yields the fixed label of the variant, and the
  manager built by adding a temperature sensor and then a pressure sensor lists the
  labels \<open>Temperature\<close>, \<open>Pressure\<close> in that order.
\<close>

theorem getType_labels:
  "getType TemperatureSensor = ''Temperature'' \<and>
   getType PressureSensor = ''Pressure'' \<and>
   getSensorTypes (addSensor (addSensor SensorManager_new TemperatureSensor) PressureSensor)
     = [''Temperature'', ''Pressure'']"
  by (simp add: getSensorTypes_def addSensor_def SensorManager_new_def)

text \<open>
  C2. At every valid position \<open>i\<close>, the \<open>i\<close>-th reading of \<open>readAll\<close> is what \<open>readValue\<close>
  returns for the \<open>i\<close>-th registered sensor (called after the sensors before it), and the
  \<open>i\<close>-th label of \<open>getSensorTypes\<close> is the label of that same sensor; the registered
  sequence is the sequence of sensors in the order they were added; and \<open>addSensor\<close> keeps
  the reading and the label at every position that existed before. The two accessors
  take the manager read-only, so they cannot disturb the correspondence.
\<close>

theorem positional_correspondence:
  assumes "i < length (sensors m)"
  shows "fst (readAll draw m st) ! i =
           fst (readValue draw (sensors m ! i) (engines_after draw (take i (sensors m)) st)) \<and>
         getSensorTypes m ! i = getType (sensors m ! i) \<and>
         sensors (foldl addSensor SensorManager_new ss) = ss \<and>
         fst (readAll draw (addSensor m s) st) ! i = fst (readAll draw m st) ! i \<and>
         getSensorTypes (addSensor m s) ! i = getSensorTypes m ! i"
proof -
  have "i < length (sensors (addSensor m s))"
    using assms by (simp add: sensors_addSensor)
  then have "fst (readAll draw (addSensor m s) st) ! i = fst (readAll draw m st) ! i"
    using assms by (simp add: readAll_nth) (simp add: sensors_addSensor nth_append)
  then show ?thesis
    using assms
    by (simp add: readAll_nth getSensorTypes_map sensors_foldl_addSensor
        SensorManager_new_def sensors_addSensor nth_append)
qed

theorem positional_correspondence_witness:
  "(1::nat) < length (sensors main_manager) \<and>
   fst (readAll sample_draw main_manager \<lparr>temp_gen = 3, pres_gen = 8\<rparr>) ! 1 = 1 \<and>
   getSensorTypes main_manager ! 1 = ''Pressure'' \<and>
   sensors (foldl addSensor SensorManager_new [PressureSensor, TemperatureSensor])
     = [PressureSensor, TemperatureSensor] \<and>
   fst (readAll sample_draw (addSensor main_manager TemperatureSensor)
          \<lparr>temp_gen = 3, pres_gen = 8\<rparr>) ! 1 = 1"
proof -
  have h: "(1::nat) < length (sensors main_manager)"
    by (simp add: main_manager_sensors)
  show ?thesis
    using h positional_correspondence [OF h, of sample_draw "\<lparr>temp_gen = 3, pres_gen = 8\<rparr>"
        "[PressureSensor, TemperatureSensor]" TemperatureSensor]
    by (simp add: main_manager_sensors engines_after_def sample_draw_def)
qed

text \<open>
  C3. One call of \<open>readAll\<close> returns, position by position, the result of one \<open>readValue\<close>
  call per registered sensor, made in registration order, and leaves the engines in the
  state reached by exactly those calls: nothing is cached, dropped or reordered. Run on
  engines that count their draws, it takes from each engine exactly as many draws as
  there are registered sensors of that engine's variant.
\<close>

theorem readAll_each_once_in_order:
  "readAll draw m st =
     (readings_in_order draw (sensors m) st, engines_after draw (sensors m) st) \<and>
   length (fst (readAll draw m st)) = length (sensors m) \<and>
   temp_gen (snd (readAll counting_draw m c)) =
     temp_gen c + count_list (sensors m) TemperatureSensor \<and>
   pres_gen (snd (readAll counting_draw m c)) =
     pres_gen c + count_list (sensors m) PressureSensor"
  by (simp add: readAll_eq readings_in_order_def engines_after_counting)

text \<open>
  C9. A temperature reading leaves the pressure engine as it was and a pressure reading
  leaves the temperature engine as it was; each reading advances its own engine by one
  draw, and its value does not depend on the state of the other engine.
\<close>

theorem engines_independent:
  "pres_gen (snd (readValue draw TemperatureSensor st)) = pres_gen st \<and>
   temp_gen (snd (readValue draw PressureSensor st)) = temp_gen st \<and>
   temp_gen (snd (readValue draw TemperatureSensor st)) = snd (draw 20 30 (temp_gen st)) \<and>
   pres_gen (snd (readValue draw PressureSensor st))
     = snd (draw (9 / 10) (11 / 10) (pres_gen st)) \<and>
   fst (readValue draw TemperatureSensor (st\<lparr>pres_gen := g\<rparr>))
     = fst (readValue draw TemperatureSensor st) \<and>
   fst (readValue draw PressureSensor (st\<lparr>temp_gen := g\<rparr>))
     = fst (readValue draw PressureSensor st)"
  by (simp add: split_beta)

text \<open>
  C5. With a distribution that meets the standard's contract, every call of \<open>readValue\<close>
  on a temperature sensor returns a value from 20 (included) to 30 (excluded) and every
  call on a pressure sensor a value from 0.9 (included) to 1.1 (excluded), whatever the
  engine state; in particular all \<open>n\<close> readings of \<open>n\<close> successive calls do, for every \<open>n\<close>.
\<close>

theorem readValue_ranges:
  assumes "dist_contract draw"
  shows "20 \<le> fst (readValue draw TemperatureSensor st) \<and>
         fst (readValue draw TemperatureSensor st) < 30 \<and>
         9 / 10 \<le> fst (readValue draw PressureSensor st) \<and>
         fst (readValue draw PressureSensor st) < 11 / 10 \<and>
         length (readValue_repeat draw TemperatureSensor n st) = n \<and>
         (\<forall>v \<in> set (readValue_repeat draw TemperatureSensor n st). 20 \<le> v \<and> v < 30) \<and>
         length (readValue_repeat draw PressureSensor n st) = n \<and>
         (\<forall>v \<in> set (readValue_repeat draw PressureSensor n st). 9 / 10 \<le> v \<and> v < 11 / 10)"
  using readValue_in_range [OF assms] readValue_repeat_range [OF assms]
  by (simp add: length_readValue_repeat del: readValue.simps)

theorem readValue_ranges_witness:
  "dist_contract sample_draw \<and>
   20 \<le> fst (readValue sample_draw TemperatureSensor \<lparr>temp_gen = 7, pres_gen = 7\<rparr>) \<and>
   fst (readValue sample_draw TemperatureSensor \<lparr>temp_gen = 7, pres_gen = 7\<rparr>) < 30 \<and>
   9 / 10 \<le> fst (readValue sample_draw PressureSensor \<lparr>temp_gen = 7, pres_gen = 7\<rparr>) \<and>
   fst (readValue sample_draw PressureSensor \<lparr>temp_gen = 7, pres_gen = 7\<rparr>) < 11 / 10 \<and>
   list_all (\<lambda>v. 20 \<le> v \<and> v < 30)
     (readValue_repeat sample_draw TemperatureSensor 3 \<lparr>temp_gen = 7, pres_gen = 7\<rparr>) \<and>
   list_all (\<lambda>v. 9 / 10 \<le> v \<and> v < 11 / 10)
     (readValue_repeat sample_draw PressureSensor 3 \<lparr>temp_gen = 7, pres_gen = 7\<rparr>)"
proof -
  have c: "dist_contract sample_draw"
    by (rule sample_draw_contract)
  show ?thesis
    unfolding list_all_iff
    using c readValue_ranges [OF c, of "\<lparr>temp_gen = 7, pres_gen = 7\<rparr>" 3]
    by blast
qed

section \<open>Claims about the driver\<close>

text \<open>
  C7, as the code has it. The text that one pass through the loop body appends to
  \<open>std::cout\<close> is: an opening bracket, the timestamp, a closing bracket and one space; then
  for each registered sensor, in registration order, its label, a colon and one space,
  the reading in fixed notation and two spaces; then a line break. The whole console
  output of \<open>main\<close> is the greeting, twenty such lines for the two registered sensors, and
  the closing message. With clock readings in the ranges that \<open>localtime\<close> delivers, the
  timestamp is two digits each for hour, minute and second of the clock reading taken for
  it, separated by colons. The text of a reading has exactly two decimals and is the
  reading rounded to the nearest hundredth (it differs from the reading by at most half
  a hundredth), a reading halfway between two hundredths going to the even one.
\<close>

theorem console_line_format:
  assumes "\<forall>k. tm_ok (clock k)"
  shows "cout (sample fixed2 draw clock m s) =
     cout s @ ''['' @ strftime_HMS (clock (Suc (ticks s))) @ ''] '' @
     concat (map (\<lambda>j. getType (sensors m ! j) @ '': '' @
                        fixed2 (fst (readAll draw m (gens s)) ! j) @ ''  '')
               [0..<length (sensors m)]) @ ''\<newline>'' \<and>
   cout (main draw g0 clock) =
     ''Logging sensor data to sensor_data.csv ...\<newline>'' @
     concat (map (\<lambda>k. ''['' @ strftime_HMS (clock (2 * k + 1)) @ ''] Temperature: '' @
                        fixed2 (readings_at fixed2 draw g0 clock k ! 0) @ ''  Pressure: '' @
                        fixed2 (readings_at fixed2 draw g0 clock k ! 1) @ ''  \<newline>'') [0..<20]) @
     farewell \<and>
   parse_HMS (strftime_HMS (clock j)) = Some (clock j) \<and>
   parse_fixed2 (fixed2 v) = Some (v < 0, round_half_even (\<bar>v\<bar> * 100)) \<and>
   \<bar>real (round_half_even (\<bar>v\<bar> * 100)) / 100 - \<bar>v\<bar>\<bar> \<le> 1 / 200 \<and>
   round_half_even (real n + 1 / 2) = (if even n then n else Suc n)"
proof -
  have "cout (main draw g0 clock) = cout (state_at fixed2 draw g0 clock 20) @ farewell"
    by (simp add: main_eq)
  then have whole: "cout (main draw g0 clock) =
     ''Logging sensor data to sensor_data.csv ...\<newline>'' @
     concat (map (\<lambda>k. ''['' @ strftime_HMS (clock (2 * k + 1)) @ ''] Temperature: '' @
                        fixed2 (readings_at fixed2 draw g0 clock k ! 0) @ ''  Pressure: '' @
                        fixed2 (readings_at fixed2 draw g0 clock k ! 1) @ ''  \<newline>'') [0..<20]) @
     farewell"
    by (simp only: cout_state_at append_assoc)
  have stamp: "parse_HMS (strftime_HMS (clock j)) = Some (clock j)"
    using assms by (simp add: parse_HMS_strftime)
  show ?thesis
    using whole stamp sample_cout [of fixed2 draw clock m s] parse_fixed2_fixed2 [of v]
      fixed2_near [of v] round_half_even_tie [of n]
    by blast
qed

theorem console_line_format_witness:
  "(\<forall>k. tm_ok (sample_clock k)) \<and>
   cout (sample fixed2 sample_draw sample_clock main_manager
          \<lparr>gens = \<lparr>temp_gen = 13, pres_gen = 13\<rparr>, time = 3, logfile = [], cout = [], ticks = 6\<rparr>)
     = ''[23:59:53] Temperature: 28.12  Pressure: 1.06  \<newline>'' \<and>
   parse_HMS (strftime_HMS (sample_clock 7)) = Some \<lparr>tm_hour = 23, tm_min = 59, tm_sec = 53\<rparr> \<and>
   parse_fixed2 (fixed2 (225 / 8)) = Some (False, 2812)"
proof -
  have c: "\<forall>k. tm_ok (sample_clock k)"
    by (simp add: sample_clock_ok)
  let ?s = "\<lparr>gens = \<lparr>temp_gen = 13::nat, pres_gen = 13\<rparr>, time = 3, logfile = [], cout = [],
            ticks = 6\<rparr>"
  note r = console_line_format [OF c, of sample_draw main_manager ?s 0 7 "225 / 8" 0]
  have vals: "fst (readAll sample_draw main_manager (gens ?s)) = [225 / 8, 17 / 16]"
    by (simp add: readAll_main_manager sample_draw_def)
  have idx: "[0..<length (sensors main_manager)] = [0, 1]"
    by (simp add: main_manager_sensors upt_conv_Cons)
  from r have line: "cout (sample fixed2 sample_draw sample_clock main_manager ?s) =
     cout ?s @ ''['' @ strftime_HMS (sample_clock (Suc (ticks ?s))) @ ''] '' @
     concat (map (\<lambda>j. getType (sensors main_manager ! j) @ '': '' @
                        fixed2 (fst (readAll sample_draw main_manager (gens ?s)) ! j) @ ''  '')
               [0..<length (sensors main_manager)]) @ ''\<newline>''"
    by (rule conjunct1)
  have a: "cout (sample fixed2 sample_draw sample_clock main_manager ?s)
     = ''[23:59:53] Temperature: 28.12  Pressure: 1.06  \<newline>''"
    unfolding line vals idx
    by (simp add: main_manager_sensors strftime_sample_clock fixed2_examples)
  from r have b: "parse_HMS (strftime_HMS (sample_clock 7)) = Some (sample_clock 7)"
    by blast
  from r have d: "parse_fixed2 (fixed2 (225 / 8)) = Some (225 / 8 < (0::real), round_half_even (\<bar>225 / 8\<bar> * 100))"
    by blast
  have e: "sample_clock 7 = \<lparr>tm_hour = 23, tm_min = 59, tm_sec = 53\<rparr>"
    by (simp add: sample_clock_def Let_def)
  have f: "round_half_even (\<bar>225 / 8\<bar> * 100) = 2812"
    by (simp add: round_half_even_def Let_def)
  show ?thesis
    using c a b d e f by simp
qed

text \<open>
  C7, as it is worded (label, colon and reading with nothing between them, and nothing
  between the closing bracket and the first label), does not hold: for the first sample
  of a run the program prints a space after the bracket and after each colon.
\<close>

theorem console_line_counterexample:
  "cout (sample fixed2 sample_draw sample_clock main_manager ((main_init 0)\<lparr>cout := []\<rparr>))
     = ''[23:59:50] Temperature: 20.00  Pressure: 0.90  \<newline>'' \<and>
   described_console_line fixed2 (strftime_HMS (sample_clock 1)) (getSensorTypes main_manager)
       (fst (readAll sample_draw main_manager (gens (main_init 0))))
     = ''[23:59:50]Temperature:20.00  Pressure:0.90  \<newline>'' \<and>
   cout (sample fixed2 sample_draw sample_clock main_manager ((main_init 0)\<lparr>cout := []\<rparr>))
     \<noteq> described_console_line fixed2 (strftime_HMS (sample_clock 1))
         (getSensorTypes main_manager)
         (fst (readAll sample_draw main_manager (gens (main_init 0))))"
proof -
  have g: "gens ((main_init 0)\<lparr>cout := []\<rparr>) = gens (main_init (0::nat))"
    by simp
  have t: "ticks ((main_init (0::nat))\<lparr>cout := []\<rparr>) = 0"
    by (simp add: main_init_def)
  have a: "cout (sample fixed2 sample_draw sample_clock main_manager ((main_init 0)\<lparr>cout := []\<rparr>))
     = ''[23:59:50] Temperature: 20.00  Pressure: 0.90  \<newline>''"
    by (simp add: sample_cout_main_manager g t readAll_sample_init strftime_sample_clock
        fixed2_examples)
  have "[0..<length (getSensorTypes main_manager)] = [0, 1]"
    by (simp add: getSensorTypes_map main_manager_sensors upt_conv_Cons)
  then have b: "described_console_line fixed2 (strftime_HMS (sample_clock 1))
       (getSensorTypes main_manager)
       (fst (readAll sample_draw main_manager (gens (main_init 0))))
     = ''[23:59:50]Temperature:20.00  Pressure:0.90  \<newline>''"
    by (simp add: described_console_line_def readAll_sample_init strftime_sample_clock
        fixed2_examples getSensorTypes_map main_manager_sensors)
  show ?thesis
    unfolding a b by simp
qed

text \<open>
  C8. With clock readings in the ranges that \<open>localtime\<close> delivers, the file written by
  \<open>main\<close> consists of 21 lines, each closed by a line break: the header row, then twenty
  rows that each split at the commas into exactly four fields. In row \<open>k\<close> the first field
  is the elapsed time \<open>k\<close> with two decimals, that is \<open>100 k\<close> hundredths; the second is the
  timestamp of the first clock reading of sample \<open>k\<close>, two digits each for hour, minute
  and second, separated by colons; the remaining fields are the readings of the
  registered sensors in registration order, each with exactly two decimals and rounded
  to the nearest hundredth, halfway cases to the even one.
\<close>

theorem logfile_21_lines:
  assumes "\<forall>k. tm_ok (clock k)"
  shows "length (file_lines (logfile (main draw g0 clock))) = 21 \<and>
         last (split_on CHR ''\<newline>'' (logfile (main draw g0 clock))) = [] \<and>
         hd (file_lines (logfile (main draw g0 clock)))
           = ''Time(s),Timestamp,Temperature(C),Pressure(bar)'' \<and>
         map (split_on CHR '','') (tl (file_lines (logfile (main draw g0 clock)))) =
           map (\<lambda>k. [fixed2 (real k), strftime_HMS (clock (2 * k))] @
                     map fixed2 (readings_at fixed2 draw g0 clock k)) [0..<20] \<and>
         map (\<lambda>row. length (split_on CHR '','' row))
             (tl (file_lines (logfile (main draw g0 clock)))) = replicate 20 4 \<and>
         map (\<lambda>row. parse_fixed2 (split_on CHR '','' row ! 0))
             (tl (file_lines (logfile (main draw g0 clock))))
           = map (\<lambda>k. Some (False, 100 * k)) [0..<20] \<and>
         map (\<lambda>row. parse_HMS (split_on CHR '','' row ! 1))
             (tl (file_lines (logfile (main draw g0 clock))))
           = map (\<lambda>k. Some (clock (2 * k))) [0..<20] \<and>
         map (\<lambda>row. map parse_fixed2 (drop 2 (split_on CHR '','' row)))
             (tl (file_lines (logfile (main draw g0 clock))))
           = map (\<lambda>k. map (\<lambda>v. Some (v < 0, round_half_even (\<bar>v\<bar> * 100)))
                          (readings_at fixed2 draw g0 clock k)) [0..<20] \<and>
         \<bar>real (round_half_even (\<bar>v\<bar> * 100)) / 100 - \<bar>v\<bar>\<bar> \<le> 1 / 200 \<and>
         round_half_even (real n + 1 / 2) = (if even n then n else Suc n)"
proof -
  let ?L = "file_lines (logfile (main draw g0 clock))"
  let ?F = "\<lambda>k. [fixed2 (real k), strftime_HMS (clock (2 * k))] @
                 map fixed2 (readings_at fixed2 draw g0 clock k)"
  have lines: "?L = header_line # map (csv_row fixed2 draw g0 clock) [0..<20]"
    by (rule logfile_main_lines(1) [OF assms])
  have fields: "map (split_on CHR '','') (tl ?L) = map ?F [0..<20]"
    unfolding lines by (simp add: csv_row_fields [OF fixed2_plain assms] del: upt.simps)
  have via: "map (\<lambda>row. g (split_on CHR '','' row)) (tl ?L) = map (\<lambda>k. g (?F k)) [0..<20]"
    for g :: "string list \<Rightarrow> 'b"
  proof -
    have "map (\<lambda>row. g (split_on CHR '','' row)) (tl ?L) = map g (map (split_on CHR '','') (tl ?L))"
      by (simp add: comp_def)
    also have "\<dots> = map (\<lambda>k. g (?F k)) [0..<20]"
      unfolding fields by (simp add: comp_def del: upt.simps)
    finally show ?thesis .
  qed
  have four: "map (\<lambda>row. length (split_on CHR '','' row)) (tl ?L) = replicate 20 4"
  proof -
    have "map (\<lambda>k. length (?F k)) [0..<20] = map (\<lambda>k. 4) [0..<20]"
      by (simp add: readings_at_eq del: upt.simps)
    also have "\<dots> = replicate 20 4"
      by (simp add: map_replicate_const)
    finally show ?thesis
      using via [of length] by simp
  qed
  have elapsed: "map (\<lambda>row. parse_fixed2 (split_on CHR '','' row ! 0)) (tl ?L)
      = map (\<lambda>k. Some (False, 100 * k)) [0..<20]"
    using via [of "\<lambda>fs. parse_fixed2 (fs ! 0)"]
    by (simp add: parse_fixed2_fixed2 round_half_even_whole del: upt.simps)
  have stamps: "map (\<lambda>row. parse_HMS (split_on CHR '','' row ! 1)) (tl ?L)
      = map (\<lambda>k. Some (clock (2 * k))) [0..<20]"
    using via [of "\<lambda>fs. parse_HMS (fs ! 1)"] assms
    by (simp add: parse_HMS_strftime del: upt.simps)
  have readings: "map (\<lambda>row. map parse_fixed2 (drop 2 (split_on CHR '','' row))) (tl ?L)
      = map (\<lambda>k. map (\<lambda>v. Some (v < 0, round_half_even (\<bar>v\<bar> * 100)))
                     (readings_at fixed2 draw g0 clock k)) [0..<20]"
    using via [of "\<lambda>fs. map parse_fixed2 (drop 2 fs)"]
    by (simp add: parse_fixed2_fixed2 comp_def del: upt.simps)
  have "length ?L = 21"
    unfolding lines by simp
  moreover have "hd ?L = ''Time(s),Timestamp,Temperature(C),Pressure(bar)''"
    unfolding lines by (simp add: header_line_def)
  moreover have "last (split_on CHR ''\<newline>'' (logfile (main draw g0 clock))) = []"
    by (rule logfile_main_lines(2) [OF assms])
  ultimately show ?thesis
    using fields four elapsed stamps readings fixed2_near [of v] round_half_even_tie [of n]
    by blast
qed

theorem logfile_21_lines_witness:
  "(\<forall>k. tm_ok (sample_clock k)) \<and>
   length (file_lines (logfile (main sample_draw (0::nat) sample_clock))) = 21 \<and>
   hd (file_lines (logfile (main sample_draw (0::nat) sample_clock)))
     = ''Time(s),Timestamp,Temperature(C),Pressure(bar)'' \<and>
   map (split_on CHR '','') (tl (file_lines (logfile (main sample_draw (0::nat) sample_clock)))) ! 0
     = [''0.00'', ''23:59:50'', ''20.00'', ''0.90''] \<and>
   map (split_on CHR '','') (tl (file_lines (logfile (main sample_draw (0::nat) sample_clock)))) ! 3
     = [''3.00'', ''23:59:53'', ''28.12'', ''1.06''] \<and>
   map (split_on CHR '','') (tl (file_lines (logfile (main sample_draw (0::nat) sample_clock)))) ! 11
     = [''11.00'', ''00:00:01'', ''23.12'', ''0.96'']"
proof -
  have c: "\<forall>k. tm_ok (sample_clock k)"
    by (simp add: sample_clock_ok)
  note r = logfile_21_lines [OF c, of sample_draw "0::nat" 0 0]
  let ?F = "\<lambda>k. [fixed2 (real k), strftime_HMS (sample_clock (2 * k))] @
                 map fixed2 (readings_at fixed2 sample_draw (0::nat) sample_clock k)"
  have r0: "readings_at fixed2 sample_draw (0::nat) sample_clock 0 = [20, 9 / 10]"
    by (simp add: readings_at_eq stream_at_def sample_draw_def)
  have r3: "readings_at fixed2 sample_draw (0::nat) sample_clock 3 = [225 / 8, 17 / 16]"
    unfolding readings_at_eq stream_at_def sample_draw_state by (simp add: sample_draw_def)
  have r11: "readings_at fixed2 sample_draw (0::nat) sample_clock 11 = [185 / 8, 77 / 80]"
    unfolding readings_at_eq stream_at_def sample_draw_state by (simp add: sample_draw_def)
  have f0: "?F 0 = [''0.00'', ''23:59:50'', ''20.00'', ''0.90'']"
    by (simp add: r0 fixed2_examples strftime_sample_clock)
  have f3: "?F 3 = [''3.00'', ''23:59:53'', ''28.12'', ''1.06'']"
    by (simp add: r3 fixed2_examples strftime_sample_clock)
  have f11: "?F 11 = [''11.00'', ''00:00:01'', ''23.12'', ''0.96'']"
    by (simp add: r11 fixed2_examples strftime_sample_clock)
  have nth: "map ?F [0..<20] ! k = ?F k" if "k < 20" for k
    using that by (simp del: upt.simps)
  from r have fields: "map (split_on CHR '','')
      (tl (file_lines (logfile (main sample_draw (0::nat) sample_clock)))) = map ?F [0..<20]"
    by blast
  from r have len: "length (file_lines (logfile (main sample_draw (0::nat) sample_clock))) = 21"
    by blast
  from r have h: "hd (file_lines (logfile (main sample_draw (0::nat) sample_clock)))
     = ''Time(s),Timestamp,Temperature(C),Pressure(bar)''"
    by blast
  show ?thesis
    unfolding fields using c len h nth [of 0] nth [of 3] nth [of 11] f0 f3 f11
    by (simp del: upt.simps)
qed

text \<open>
  C10. A reading and the successor state of the engine it uses are functions of that
  engine's state alone: two calls on a variant from states that agree on the variant's
  engine return the same value and leave the same engine state. Both engines start in
  the default-constructed state, so the readings of sample \<open>k\<close> of a run are the \<open>k\<close>-th
  numbers of the two streams drawn from that state, the same in every run whatever the
  clock shows and however numbers are printed.
\<close>

theorem readings_deterministic:
  assumes "gen_of s st = gen_of s st'"
  shows "fst (readValue draw s st) = fst (readValue draw s st') \<and>
         gen_of s (snd (readValue draw s st)) = gen_of s (snd (readValue draw s st')) \<and>
         readings_at fmt2 draw g0 clock k =
           [stream_at draw 20 30 g0 k, stream_at draw (9 / 10) (11 / 10) g0 k] \<and>
         readings_at fmt2 draw g0 clock k = readings_at fmt2' draw g0 clock' k"
  using assms by (cases s) (simp_all add: split_beta readings_at_eq)

theorem readings_deterministic_witness:
  "gen_of TemperatureSensor \<lparr>temp_gen = 5::nat, pres_gen = 1\<rparr>
     = gen_of TemperatureSensor \<lparr>temp_gen = 5, pres_gen = 2\<rparr> \<and>
   fst (readValue sample_draw TemperatureSensor \<lparr>temp_gen = 5, pres_gen = 1\<rparr>)
     = fst (readValue sample_draw TemperatureSensor \<lparr>temp_gen = 5, pres_gen = 2\<rparr>) \<and>
   readings_at fixed2 sample_draw 0 sample_clock (Suc 0) = [175 / 8, 15 / 16] \<and>
   readings_at (\<lambda>v. []) sample_draw 0 (\<lambda>k. \<lparr>tm_hour = 0, tm_min = 0, tm_sec = 0\<rparr>) (Suc 0)
     = [175 / 8, 15 / 16]"
proof -
  have h: "gen_of TemperatureSensor \<lparr>temp_gen = 5::nat, pres_gen = 1\<rparr>
     = gen_of TemperatureSensor \<lparr>temp_gen = 5, pres_gen = 2\<rparr>"
    by simp
  note r = readings_deterministic [OF h, of sample_draw fixed2 0 sample_clock "Suc 0"
      "\<lambda>v. []" "\<lambda>k. \<lparr>tm_hour = 0, tm_min = 0, tm_sec = 0\<rparr>"]
  have v: "[stream_at sample_draw 20 30 0 (Suc 0), stream_at sample_draw (9 / 10) (11 / 10) 0 (Suc 0)]
      = [175 / 8, 15 / 16]"
    by (simp add: stream_at_def sample_draw_def)
  from r have e1: "fst (readValue sample_draw TemperatureSensor \<lparr>temp_gen = 5, pres_gen = 1\<rparr>)
     = fst (readValue sample_draw TemperatureSensor \<lparr>temp_gen = 5, pres_gen = 2\<rparr>)"
    by blast
  from r have e3: "readings_at fixed2 sample_draw 0 sample_clock (Suc 0)
      = [stream_at sample_draw 20 30 0 (Suc 0), stream_at sample_draw (9 / 10) (11 / 10) 0 (Suc 0)]"
    by blast
  from r have e4: "readings_at fixed2 sample_draw 0 sample_clock (Suc 0)
      = readings_at (\<lambda>v. []) sample_draw 0 (\<lambda>k. \<lparr>tm_hour = 0, tm_min = 0, tm_sec = 0\<rparr>) (Suc 0)"
    by blast
  show ?thesis
    unfolding e4 [symmetric] e3 v using h e1 by blast
qed

end
